theory Spec2Isabelle
  imports Main "HOL-Library.Word"
begin

section \<open>Strings and numbers of the Go library, as the scheduler uses them\<close>

text \<open>
  A Go string is a sequence of bytes, here a \<open>string\<close>. White space is what
  \<open>unicode.IsSpace\<close> takes for it: six bytes of ASCII and the UTF-8 encodings of U+0085,
  U+00A0, U+1680, U+2000 to U+200A, U+2028, U+2029, U+202F, U+205F and U+3000. The first
  byte of each encoding is no continuation byte, so that the decoder of Go, which steps a
  byte over what is not UTF-8, meets each of them where it stands in the string.
\<close>

definition space_runes :: "string list" where
  "space_runes =
     [[CHR 0x09], [CHR 0x0A], [CHR 0x0B], [CHR 0x0C], [CHR 0x0D], [CHR 0x20],
      [CHR 0xC2, CHR 0x85], [CHR 0xC2, CHR 0xA0], [CHR 0xE1, CHR 0x9A, CHR 0x80],
      [CHR 0xE2, CHR 0x80, CHR 0x80], [CHR 0xE2, CHR 0x80, CHR 0x81],
      [CHR 0xE2, CHR 0x80, CHR 0x82], [CHR 0xE2, CHR 0x80, CHR 0x83],
      [CHR 0xE2, CHR 0x80, CHR 0x84], [CHR 0xE2, CHR 0x80, CHR 0x85],
      [CHR 0xE2, CHR 0x80, CHR 0x86], [CHR 0xE2, CHR 0x80, CHR 0x87],
      [CHR 0xE2, CHR 0x80, CHR 0x88], [CHR 0xE2, CHR 0x80, CHR 0x89],
      [CHR 0xE2, CHR 0x80, CHR 0x8A], [CHR 0xE2, CHR 0x80, CHR 0xA8],
      [CHR 0xE2, CHR 0x80, CHR 0xA9], [CHR 0xE2, CHR 0x80, CHR 0xAF],
      [CHR 0xE2, CHR 0x81, CHR 0x9F], [CHR 0xE3, CHR 0x80, CHR 0x80]]"

definition HasPrefix :: "string \<Rightarrow> string \<Rightarrow> bool" where
  "HasPrefix s p = (take (length p) s = p)"

definition TrimPrefix :: "string \<Rightarrow> string \<Rightarrow> string" where
  "TrimPrefix s p = (if HasPrefix s p then drop (length p) s else s)"

definition HasSuffix :: "string \<Rightarrow> string \<Rightarrow> bool" where
  "HasSuffix s p = (length p \<le> length s \<and> drop (length s - length p) s = p)"

definition TrimSuffix :: "string \<Rightarrow> string \<Rightarrow> string" where
  "TrimSuffix s p = (if HasSuffix s p then take (length s - length p) s else s)"

text \<open>The white space that \<open>s\<close> begins with, if any.\<close>

definition leading_space :: "string list \<Rightarrow> string \<Rightarrow> string option" where
  "leading_space runes s = find (\<lambda>w. HasPrefix s w) runes"

fun drop_spaces :: "string list \<Rightarrow> string \<Rightarrow> string" where
  "drop_spaces runes [] = []"
| "drop_spaces runes (c # cs) =
     (case leading_space runes (c # cs) of
        None \<Rightarrow> c # cs
      | Some w \<Rightarrow> drop_spaces runes (drop (length w - 1) cs))"

text \<open>
  \<open>strings.TrimSpace\<close>: the white space is taken off the front, then off the back, which
  is the front of the reversed string for the reversed encodings.
\<close>

definition TrimSpace :: "string \<Rightarrow> string" where
  "TrimSpace s = rev (drop_spaces (map rev space_runes) (rev (drop_spaces space_runes s)))"

text \<open>
  \<open>strings.Fields\<close>: the maximal runs of bytes free of white space, in order.
  \<open>fields_from cur s\<close> reads \<open>s\<close> with \<open>cur\<close> the field read so far.
\<close>

fun fields_from :: "string \<Rightarrow> string \<Rightarrow> string list" where
  "fields_from cur [] = (if cur = [] then [] else [cur])"
| "fields_from cur (c # cs) =
     (case leading_space space_runes (c # cs) of
        Some w \<Rightarrow>
          (if cur = [] then fields_from [] (drop (length w - 1) cs)
           else cur # fields_from [] (drop (length w - 1) cs))
      | None \<Rightarrow> fields_from (cur @ [c]) cs)"

definition Fields :: "string \<Rightarrow> string list" where
  "Fields s = fields_from [] s"

definition lower_char :: "char \<Rightarrow> char" where
  "lower_char c =
     (case map_of (zip ''ABCDEFGHIJKLMNOPQRSTUVWXYZ'' ''abcdefghijklmnopqrstuvwxyz'') c of
        Some l \<Rightarrow> l
      | None \<Rightarrow> c)"

text \<open>
  \<open>strings.ToLower\<close>, as far as a comparison of the result with a word of ASCII letters
  can tell: the letters A to Z go to a to z, and the two runes from beyond ASCII whose
  lower case is an ASCII letter, U+0130 and U+212A, go to \<open>i\<close> and \<open>k\<close>. Every other byte
  from beyond ASCII is left as it is: Go maps it to bytes from beyond ASCII as well.
\<close>

fun ToLower :: "string \<Rightarrow> string" where
  "ToLower [] = []"
| "ToLower (c # cs) =
     (if HasPrefix (c # cs) [CHR 0xC4, CHR 0xB0] then CHR ''i'' # ToLower (drop 1 cs)
      else if HasPrefix (c # cs) [CHR 0xE2, CHR 0x84, CHR 0xAA] then CHR ''k'' # ToLower (drop 2 cs)
      else lower_char c # ToLower cs)"

definition isDigit :: "char \<Rightarrow> bool" where
  "isDigit c = (48 \<le> (of_char c :: nat) \<and> (of_char c :: nat) \<le> 57)"

definition digit_val :: "char \<Rightarrow> int" where
  "digit_val c = int (of_char c) - 48"

definition decimal :: "string \<Rightarrow> int" where
  "decimal ds = foldl (\<lambda>a c. 10 * a + digit_val c) 0 ds"

text \<open>
  \<open>strconv.Atoi\<close> where \<open>int\<close> has 64 bits: one optional sign, then one decimal digit
  or more and nothing else, the value within the range of the type. The callers look only
  at whether there is an error, so the error is \<open>None\<close>.
\<close>

definition Atoi :: "string \<Rightarrow> int option" where
  "Atoi s =
     (let neg = (s \<noteq> [] \<and> hd s = CHR ''-'');
          ds = (if s \<noteq> [] \<and> (hd s = CHR ''-'' \<or> hd s = CHR ''+'') then tl s else s)
      in if ds = [] \<or> \<not> list_all isDigit ds then None
         else if neg then (if decimal ds > 2 ^ 63 then None else Some (- decimal ds))
         else (if decimal ds > 2 ^ 63 - 1 then None else Some (decimal ds)))"

section \<open>Durations, locations and instants\<close>

text \<open>
  \<open>time.Duration\<close> is a signed 64-bit count of nanoseconds; its arithmetic wraps around.
\<close>

type_synonym Duration = "64 word"

definition Second :: Duration where "Second = 1000000000"
definition Minute :: Duration where "Minute = 60 * Second"
definition Hour :: Duration where "Hour = 60 * Minute"

definition nsPerSecond :: int where "nsPerSecond = 1000000000"
definition nsPerMinute :: int where "nsPerMinute = 60 * nsPerSecond"
definition nsPerHour :: int where "nsPerHour = 60 * nsPerMinute"
definition nsPerDay :: int where "nsPerDay = 24 * nsPerHour"

text \<open>
  A \<open>time.Location\<close> is the offset from UTC, in seconds, of its first zone, and its
  transitions in the order of time: the second from which a zone holds, counted from
  1970-01-01 00:00:00 UTC, and the offset of that zone. \<open>lookup\<close> gives the offset in use
  at a second, and the seconds between which that zone holds, as the method of that name
  does. A location with no transition has a fixed offset.
\<close>

type_synonym Location = "int \<times> (int \<times> int) list"

definition alpha :: int where "alpha = - (2 ^ 63)"
definition omega :: int where "omega = 2 ^ 63 - 1"

fun lookup_from :: "int \<Rightarrow> int \<Rightarrow> (int \<times> int) list \<Rightarrow> int \<Rightarrow> int \<times> int \<times> int" where
  "lookup_from offset start [] sec = (offset, start, omega)"
| "lookup_from offset start ((when, offset') # tx) sec =
     (if sec < when then (offset, start, when) else lookup_from offset' when tx sec)"

definition lookup :: "Location \<Rightarrow> int \<Rightarrow> int \<times> int \<times> int" where
  "lookup l sec = lookup_from (fst l) alpha (snd l) sec"

definition UTC :: Location where
  "UTC = (0, [])"


text \<open>
  A \<open>time.Time\<close> is an instant, in nanoseconds since 1970-01-01 00:00:00 UTC, and the
  location in which its date and clock are read.
\<close>

record Time =
  nanos :: int
  location :: Location

text \<open>
  The civil time of an instant in its location, in nanoseconds since 1970-01-01 00:00:00
  of that location, a Thursday: what \<open>Year\<close>, \<open>Month\<close>, \<open>Day\<close>, \<open>Weekday\<close> and the clock
  are read from. The date is the number of the civil day.
\<close>

definition civil :: "Time \<Rightarrow> int" where
  "civil t = nanos t + fst (lookup (location t) (nanos t div nsPerSecond)) * nsPerSecond"

definition civil_day :: "Time \<Rightarrow> int" where
  "civil_day t = civil t div nsPerDay"

definition Time_Hour :: "Time \<Rightarrow> int" where
  "Time_Hour t = (civil t mod nsPerDay) div nsPerHour"

definition Time_Minute :: "Time \<Rightarrow> int" where
  "Time_Minute t = (civil t mod nsPerHour) div nsPerMinute"

definition Time_Second :: "Time \<Rightarrow> int" where
  "Time_Second t = (civil t mod nsPerMinute) div nsPerSecond"

definition Time_Nanosecond :: "Time \<Rightarrow> int" where
  "Time_Nanosecond t = civil t mod nsPerSecond"

text \<open>\<open>time.Weekday\<close> is an \<open>int\<close>, Sunday 0 to Saturday 6.\<close>

definition Time_Weekday :: "Time \<Rightarrow> int" where
  "Time_Weekday t = (civil_day t + 4) mod 7"

text \<open>
  \<open>time.Date\<close>, for the date that is the civil day \<open>day\<close>: the instant whose civil time
  in \<open>loc\<close> is that date and clock. The second is first taken as one of UTC, the offset
  in use at that second is taken off, and where the result falls outside the zone of
  that offset, the offset in use at the result is taken off instead. So a civil time
  that a transition skips is moved, and one that occurs twice is one of the two.
\<close>

definition Date :: "int \<Rightarrow> int \<Rightarrow> int \<Rightarrow> int \<Rightarrow> int \<Rightarrow> Location \<Rightarrow> Time" where
  "Date day hour minute sec nsec loc =
     (let unix = day * 86400 + hour * 3600 + minute * 60 + sec + nsec div nsPerSecond;
          (offset, start, end) = lookup loc unix;
          unix' = (if offset \<noteq> 0 then
                     (let utc = unix - offset in
                      if utc < start \<or> utc \<ge> end then unix - fst (lookup loc utc)
                      else unix - offset)
                   else unix)
      in \<lparr>nanos = unix' * nsPerSecond + nsec mod nsPerSecond, location = loc\<rparr>)"

text \<open>
  \<open>time.Date(t.Year(), t.Month(), t.Day(), hour, min, 0, 0, t.Location())\<close>.
\<close>

definition Date_on :: "Time \<Rightarrow> int \<Rightarrow> int \<Rightarrow> Time" where
  "Date_on t hour minute = Date (civil_day t) hour minute 0 0 (location t)"

text \<open>
  \<open>t.AddDate(0, 0, days)\<close>: \<open>time.Date\<close> of the date of \<open>t\<close> with \<open>days\<close> added to its
  day and of the clock of \<open>t\<close>, in the location of \<open>t\<close>.
\<close>

definition AddDate_days :: "Time \<Rightarrow> int \<Rightarrow> Time" where
  "AddDate_days t days =
     Date (civil_day t + days) (Time_Hour t) (Time_Minute t) (Time_Second t)
       (Time_Nanosecond t) (location t)"

text \<open>\<open>t.Add(d)\<close> and \<open>t.Before(u)\<close>.\<close>

definition Time_Add :: "Time \<Rightarrow> Duration \<Rightarrow> Time" where
  "Time_Add t d = t\<lparr>nanos := nanos t + sint d\<rparr>"

definition Before :: "Time \<Rightarrow> Time \<Rightarrow> bool" where
  "Before t u = (nanos t < nanos u)"

text \<open>The zero \<open>time.Time\<close>: 0001-01-01 00:00:00 UTC.\<close>

definition zero_Time :: Time where
  "zero_Time = \<lparr>nanos = - 62135596800 * nsPerSecond, location = UTC\<rparr>"

section \<open>The schedule parser of the command-line tool\<close>

datatype ScheduleType = SingleRun | Repeating

record Schedule =
  Type :: ScheduleType
  Interval :: Duration
  Weekday :: int
  TimeOfDay :: Time
  IsInterval :: bool

text \<open>\<open>&Schedule{}\<close>: every field at its zero value.\<close>

definition empty_Schedule :: Schedule where
  "empty_Schedule = \<lparr>Type = SingleRun, Interval = 0, Weekday = 0,
                      TimeOfDay = zero_Time, IsInterval = False\<rparr>"

datatype ParseError =
    InvalidInterval string
  | InvalidFormat string
  | InvalidWeekday string
  | InvalidTimeFormat string
  | InvalidHour string
  | InvalidMinute string

text \<open>
  \<open>parseInterval\<close> ranges over a map of five suffixes, in an order Go does not fix;
  \<open>parseInterval_over\<close> takes the order as a list.
\<close>

definition suffixes :: "(string \<times> Duration) list" where
  "suffixes = [(''s'', Second), (''m'', Minute), (''h'', Hour),
               (''d'', Hour * 24), (''w'', Hour * 24 * 7)]"

fun parseInterval_over :: "(string \<times> Duration) list \<Rightarrow> string \<Rightarrow> ParseError + Duration" where
  "parseInterval_over [] input = Inl (InvalidInterval input)"
| "parseInterval_over ((suffix, unit) # rest) input =
     (if HasSuffix input suffix then
        (case Atoi (TrimSuffix input suffix) of
           Some n \<Rightarrow> Inr (word_of_int n * unit)
         | None \<Rightarrow> parseInterval_over rest input)
      else parseInterval_over rest input)"

definition parseInterval :: "string \<Rightarrow> ParseError + Duration" where
  "parseInterval input = parseInterval_over suffixes input"

definition days :: "(string \<times> int) list" where
  "days = [(''sun'', 0), (''mon'', 1), (''tue'', 2), (''wed'', 3),
           (''thu'', 4), (''fri'', 5), (''sat'', 6)]"

definition parseWeekday :: "string \<Rightarrow> ParseError + int" where
  "parseWeekday day =
     (case map_of days (ToLower day) of
        Some weekday \<Rightarrow> Inr weekday
      | None \<Rightarrow> Inl (InvalidWeekday day))"

text \<open>\<open>parseTimeOfDay\<close> reads the clock: \<open>now\<close> is what \<open>time.Now()\<close> returns.\<close>

definition parseTimeOfDay :: "Time \<Rightarrow> string \<Rightarrow> ParseError + Time" where
  "parseTimeOfDay now timeStr =
     (if length timeStr \<noteq> 4 then Inl (InvalidTimeFormat timeStr)
      else (case Atoi (take 2 timeStr) of
        None \<Rightarrow> Inl (InvalidHour (take 2 timeStr))
      | Some hour \<Rightarrow>
          (if hour < 0 \<or> hour > 23 then Inl (InvalidHour (take 2 timeStr))
           else (case Atoi (drop 2 timeStr) of
             None \<Rightarrow> Inl (InvalidMinute (drop 2 timeStr))
           | Some minute \<Rightarrow>
               (if minute < 0 \<or> minute > 59 then Inl (InvalidMinute (drop 2 timeStr))
                else Inr (Date_on now hour minute))))))"

definition ParseSchedule :: "Time \<Rightarrow> string \<Rightarrow> ParseError + Schedule" where
  "ParseSchedule now input0 =
     (let input1 = TrimSpace input0;
          schedule = (if HasPrefix input1 ''e '' then empty_Schedule\<lparr>Type := Repeating\<rparr>
                      else empty_Schedule\<lparr>Type := SingleRun\<rparr>);
          input = (if HasPrefix input1 ''e '' then TrimPrefix input1 ''e '' else input1)
      in (case parseInterval input of
           Inr duration \<Rightarrow> Inr (schedule\<lparr>Interval := duration, IsInterval := True\<rparr>)
         | Inl _ \<Rightarrow>
             (let parts = Fields input in
              if length parts \<noteq> 2 then Inl (InvalidFormat input)
              else (case parseWeekday (parts ! 0) of
                Inl e \<Rightarrow> Inl e
              | Inr weekday \<Rightarrow>
                  (case parseTimeOfDay now (parts ! 1) of
                     Inl e \<Rightarrow> Inl e
                   | Inr timeOfDay \<Rightarrow>
                       Inr (schedule\<lparr>Weekday := weekday, TimeOfDay := timeOfDay\<rparr>))))))"

section \<open>The next run\<close>

text \<open>
  The loop of \<open>CalculateNextRun\<close> that moves the candidate a day at a time until its
  weekday is the schedule's. It need not end: the field \<open>Weekday\<close> is an \<open>int\<close> and no day
  has a weekday outside 0 to 6, and \<open>AddDate\<close> goes through \<open>time.Date\<close>, which in a
  location with transitions may give back the instant it was given. Where the loop does
  not end the result is \<open>None\<close>.
\<close>

partial_function (option) align_weekday :: "int \<Rightarrow> Time \<Rightarrow> Time option" where
  "align_weekday weekday result =
     (if Time_Weekday result \<noteq> weekday then align_weekday weekday (AddDate_days result 1)
      else Some result)"

declare align_weekday.simps [code]

text \<open>
  The loop of a single run: seven days at a time while the candidate is before \<open>now\<close>.
  For the same reason it need not end.
\<close>

partial_function (option) catch_up :: "Time \<Rightarrow> Time \<Rightarrow> Time option" where
  "catch_up now result =
     (if Before result now then catch_up now (AddDate_days result 7) else Some result)"

declare catch_up.simps [code]

text \<open>\<open>CalculateNextRun\<close> reads the clock once: \<open>now\<close> is what \<open>time.Now()\<close> returns.\<close>

definition CalculateNextRun :: "Schedule \<Rightarrow> Time \<Rightarrow> Time option" where
  "CalculateNextRun schedule now =
     (if IsInterval schedule then Some (Time_Add now (Interval schedule))
      else
        (let targetTime = TimeOfDay schedule;
             result0 = Date_on now (Time_Hour targetTime) (Time_Minute targetTime)
         in (case align_weekday (Weekday schedule) result0 of
               None \<Rightarrow> None
             | Some result \<Rightarrow>
                 (if Before result now then
                    (if Type schedule = Repeating then Some (AddDate_days result 7)
                     else catch_up now result)
                  else Some result))))"

text \<open>
  The default case of \<open>main\<close> in the command-line tool: parse the schedule text, then
  compute the next run of the parsed schedule. \<open>pnow\<close> and \<open>now\<close> are the two readings of
  the clock, the parser's and the calculator's.
\<close>

definition main_next_run :: "Time \<Rightarrow> Time \<Rightarrow> string \<Rightarrow> ParseError + Time option" where
  "main_next_run pnow now text =
     (case ParseSchedule pnow text of
        Inl e \<Rightarrow> Inl e
      | Inr parsedSchedule \<Rightarrow> Inr (CalculateNextRun parsedSchedule now))"

section \<open>Facts about clocks and days\<close>

lemma ns_pos: "0 < nsPerSecond" "0 < nsPerMinute" "0 < nsPerHour" "0 < nsPerDay"
  by (simp_all add: nsPerSecond_def nsPerMinute_def nsPerHour_def nsPerDay_def)








lemma Time_Weekday_range: "0 \<le> Time_Weekday t" "Time_Weekday t \<le> 6"
  by (simp_all add: Time_Weekday_def)




section \<open>Facts about a location of fixed offset\<close>











section \<open>Facts about numbers and their texts\<close>

lemma sint_word_of_int_64:
  fixes n :: int
  assumes "- (2 ^ 63) \<le> n" "n < 2 ^ 63"
  shows "sint (word_of_int n :: 64 word) = n"
  using assms by (simp add: sint_sbintrunc' signed_take_bit_int_eq_self)

lemma sint_mult_64:
  fixes n :: int and u :: "64 word"
  assumes "- (2 ^ 63) \<le> n * sint u" "n * sint u < 2 ^ 63"
  shows "sint (word_of_int n * u) = n * sint u"
proof -
  have "word_of_int n * u = (word_of_int (n * sint u) :: 64 word)"
    by simp
  then show ?thesis using sint_word_of_int_64[OF assms] by simp
qed

lemma sint_mult_wrap:
  fixes n :: int and u :: "64 word"
  shows "sint (word_of_int n * u) = signed_take_bit 63 (n * sint u)"
proof -
  have "sint (word_of_int (n * sint u) :: 64 word) = signed_take_bit 63 (n * sint u)"
    by (simp only: sint_sbintrunc') simp
  moreover have "(word_of_int (n * sint u) :: 64 word) = word_of_int n * u" by simp
  ultimately show ?thesis by (simp only:)
qed

lemma unit_values:
  "sint Second = nsPerSecond" "sint Minute = nsPerMinute" "sint Hour = nsPerHour"
  "sint (Hour * 24) = nsPerDay" "sint (Hour * 24 * 7) = 7 * nsPerDay"
  by (simp_all add: Second_def Minute_def Hour_def nsPerSecond_def nsPerMinute_def
      nsPerHour_def nsPerDay_def)

lemma isDigit_digit_val: "isDigit c \<Longrightarrow> 0 \<le> digit_val c \<and> digit_val c \<le> 9"
  by (auto simp: isDigit_def digit_val_def)

lemma foldl_decimal_nonneg:
  "list_all isDigit ds \<Longrightarrow> 0 \<le> a \<Longrightarrow> 0 \<le> foldl (\<lambda>a c. 10 * a + digit_val c) a ds"
proof (induction ds arbitrary: a)
  case Nil then show ?case by simp
next
  case (Cons c cs)
  then have "0 \<le> 10 * a + digit_val c" using isDigit_digit_val[of c] by simp
  with Cons show ?case by simp
qed

lemma decimal_nonneg: "list_all isDigit ds \<Longrightarrow> 0 \<le> decimal ds"
  by (simp add: decimal_def foldl_decimal_nonneg)

lemma not_digit_sign: "\<not> isDigit (CHR ''-'')" "\<not> isDigit (CHR ''+'')"
  by (simp_all add: isDigit_def)

lemma Atoi_digits:
  assumes "ds \<noteq> []" "list_all isDigit ds" "decimal ds < 2 ^ 63"
  shows "Atoi ds = Some (decimal ds)"
proof -
  from assms(1,2) have "isDigit (hd ds)" by (cases ds) simp_all
  then have "hd ds \<noteq> CHR ''-''" "hd ds \<noteq> CHR ''+''" using not_digit_sign by auto
  with assms show ?thesis by (simp add: Atoi_def)
qed

lemma Atoi_range:
  assumes "Atoi v = Some n"
  shows "- (2 ^ 63) \<le> n" "n < 2 ^ 63"
  using assms decimal_nonneg[of v] decimal_nonneg[of "tl v"]
  by (auto simp: Atoi_def Let_def split: if_splits)

lemma Atoi_sign_cases:
  assumes "Atoi v = Some n"
  shows "(\<exists>ds. v = CHR ''-'' # ds \<and> ds \<noteq> [] \<and> list_all isDigit ds \<and> n = - decimal ds \<and> decimal ds \<le> 2 ^ 63)
       \<or> (\<exists>ds. v = CHR ''+'' # ds \<and> ds \<noteq> [] \<and> list_all isDigit ds \<and> n = decimal ds \<and> decimal ds < 2 ^ 63)
       \<or> (v \<noteq> [] \<and> list_all isDigit v \<and> n = decimal v \<and> decimal v < 2 ^ 63)"
  using assms by (cases v) (auto simp: Atoi_def Let_def split: if_splits)

section \<open>Facts about the interval parser\<close>

lemma HasSuffix_single: "HasSuffix r [c] \<longleftrightarrow> r \<noteq> [] \<and> last r = c"
proof (cases r rule: rev_cases)
  case Nil then show ?thesis by (simp add: HasSuffix_def)
next
  case (snoc ys y) then show ?thesis by (auto simp: HasSuffix_def)
qed

lemma TrimSuffix_single: "HasSuffix r [c] \<Longrightarrow> TrimSuffix r [c] = butlast r"
  by (cases r rule: rev_cases) (auto simp: HasSuffix_def TrimSuffix_def)

lemma parseInterval_over_Inr:
  "parseInterval_over tbl r = Inr d \<Longrightarrow>
     \<exists>c u n. (c, u) \<in> set tbl \<and> HasSuffix r c \<and> Atoi (TrimSuffix r c) = Some n \<and> d = word_of_int n * u"
  by (induction tbl r rule: parseInterval_over.induct)
     (auto split: if_splits option.splits)

lemma parseInterval_over_hit:
  assumes "distinct (map fst tbl)" "\<forall>(c, u) \<in> set tbl. length c = 1"
    "(c, u) \<in> set tbl" "HasSuffix r c" "Atoi (TrimSuffix r c) = Some n"
  shows "parseInterval_over tbl r = Inr (word_of_int n * u)"
  using assms
proof (induction tbl r rule: parseInterval_over.induct)
  case (1 input) then show ?case by simp
next
  case (2 suffix unit rest input)
  show ?case
  proof (cases "(c, u) = (suffix, unit)")
    case True with 2 show ?thesis by simp
  next
    case False
    with 2 have mem: "(c, u) \<in> set rest" by auto
    from 2(3) mem have ne: "suffix \<noteq> c" by (auto simp: rev_image_eqI)
    from 2(4) mem obtain a b where c: "c = [a]" and s: "suffix = [b]"
      by (cases c; cases suffix) (fastforce simp: length_Suc_conv)+
    with ne 2(6) have "\<not> HasSuffix input suffix" by (auto simp: HasSuffix_single)
    with 2 mem show ?thesis by auto
  qed
qed

lemma suffixes_ok: "distinct (map fst suffixes)" "\<forall>(c, u) \<in> set suffixes. length c = 1"
  by (simp_all add: suffixes_def)

lemma parseInterval_Inr_iff:
  "parseInterval r = Inr d \<longleftrightarrow>
     (\<exists>c u n. (c, u) \<in> set suffixes \<and> HasSuffix r c \<and> Atoi (TrimSuffix r c) = Some n
        \<and> d = word_of_int n * u)"
  unfolding parseInterval_def
  using parseInterval_over_Inr parseInterval_over_hit[OF suffixes_ok] by blast

section \<open>Facts about the two loops of the calculator\<close>

lemma align_weekday_hit: "Time_Weekday r = w \<Longrightarrow> align_weekday w r = Some r"
  by (subst align_weekday.simps) simp

lemma align_weekday_step:
  "Time_Weekday r \<noteq> w \<Longrightarrow> align_weekday w r = align_weekday w (AddDate_days r 1)"
  by (subst align_weekday.simps) simp

lemma catch_up_hit: "\<not> Before r now \<Longrightarrow> catch_up now r = Some r"
  by (subst catch_up.simps) simp

lemma catch_up_step:
  "Before r now \<Longrightarrow> catch_up now r = catch_up now (AddDate_days r 7)"
  by (subst catch_up.simps) simp

text \<open>Where the weekday loop ends, it ends on the weekday asked for.\<close>

lemma align_weekday_Some: "align_weekday w r = Some y \<Longrightarrow> Time_Weekday y = w"
  by (rule align_weekday.raw_induct[where P="\<lambda>w r y. Time_Weekday y = w"])
     (auto split: if_splits)

lemma align_weekday_loops:
  assumes "w < 0 \<or> 6 < w"
  shows "align_weekday w r = None"
proof (cases "align_weekday w r")
  case None then show ?thesis .
next
  case (Some y)
  then have "Time_Weekday y = w" by (rule align_weekday_Some)
  then show ?thesis using assms Time_Weekday_range[of y] by auto
qed









section \<open>Facts about white space\<close>

lemma leading_space_None:
  assumes "\<forall>w \<in> set runes. w \<noteq> [] \<and> hd w \<noteq> c"
  shows "leading_space runes (c # cs) = None"
proof -
  have "\<not> HasPrefix (c # cs) w" if "w \<in> set runes" for w
  proof -
    from assms that obtain a v where w: "w = a # v" "a \<noteq> c" by (cases w) auto
    then show ?thesis by (simp add: HasPrefix_def)
  qed
  then show ?thesis by (simp add: leading_space_def find_None_iff)
qed

lemma drop_spaces_id:
  assumes "\<forall>w \<in> set runes. w \<noteq> [] \<and> hd w \<noteq> c"
  shows "drop_spaces runes (c # cs) = c # cs"
  by (simp add: leading_space_None[OF assms])

text \<open>A byte that no white space begins with, and one that no white space ends with.\<close>

lemma space_first_bytes:
  "(\<forall>w \<in> set space_runes. w \<noteq> [] \<and> hd w \<noteq> c) \<longleftrightarrow>
     c \<notin> {CHR 0x09, CHR 0x0A, CHR 0x0B, CHR 0x0C, CHR 0x0D, CHR 0x20, CHR 0xC2, CHR 0xE1,
           CHR 0xE2, CHR 0xE3}"
  by (auto simp: space_runes_def)

lemma space_last_bytes:
  "(\<forall>w \<in> set (map rev space_runes). w \<noteq> [] \<and> hd w \<noteq> c) \<longleftrightarrow>
     c \<notin> {CHR 0x09, CHR 0x0A, CHR 0x0B, CHR 0x0C, CHR 0x0D, CHR 0x20, CHR 0x85, CHR 0xA0,
           CHR 0x80, CHR 0x81, CHR 0x82, CHR 0x83, CHR 0x84, CHR 0x86, CHR 0x87, CHR 0x88,
           CHR 0x89, CHR 0x8A, CHR 0xA8, CHR 0xA9, CHR 0xAF, CHR 0x9F}"
  by (auto simp: space_runes_def)

lemma ascii_not_space:
  assumes "(of_char c :: nat) < 128" "(of_char c :: nat) > 32"
  shows "\<forall>w \<in> set space_runes. w \<noteq> [] \<and> hd w \<noteq> c"
    and "\<forall>w \<in> set (map rev space_runes). w \<noteq> [] \<and> hd w \<noteq> c"
  using assms unfolding space_first_bytes space_last_bytes by auto

lemma TrimSpace_id:
  assumes "s \<noteq> []" "\<forall>w \<in> set space_runes. w \<noteq> [] \<and> hd w \<noteq> hd s"
    "\<forall>w \<in> set (map rev space_runes). w \<noteq> [] \<and> hd w \<noteq> last s"
  shows "TrimSpace s = s"
proof -
  obtain c cs where s: "s = c # cs" using assms(1) by (cases s) auto
  have "\<forall>w \<in> set space_runes. w \<noteq> [] \<and> hd w \<noteq> c" using assms(2) s by simp
  then have 1: "drop_spaces space_runes s = s" unfolding s by (rule drop_spaces_id)
  obtain d ds where r: "rev s = d # ds" using assms(1) by (cases "rev s") auto
  then have "d = last s" using assms(1) by (metis list.sel(1) hd_rev)
  then have "\<forall>w \<in> set (map rev space_runes). w \<noteq> [] \<and> hd w \<noteq> d" using assms(3) by simp
  then have 2: "drop_spaces (map rev space_runes) (rev s) = rev s"
    unfolding r by (rule drop_spaces_id)
  show ?thesis by (simp add: TrimSpace_def 1 2)
qed

lemma fields_from_plain:
  assumes "\<forall>c \<in> set x. \<forall>w \<in> set space_runes. w \<noteq> [] \<and> hd w \<noteq> c"
  shows "fields_from cur (x @ rest) = fields_from (cur @ x) rest"
  using assms
proof (induction x arbitrary: cur)
  case Nil then show ?case by simp
next
  case (Cons c x)
  then have "leading_space space_runes (c # x @ rest) = None"
    by (intro leading_space_None) simp
  with Cons show ?case by simp
qed

lemma leading_space_blank: "leading_space space_runes (CHR '' '' # t) = Some '' ''"
  by (simp add: leading_space_def space_runes_def HasPrefix_def)

lemma Fields_two:
  assumes "w \<noteq> []" "t \<noteq> []"
    "\<forall>c \<in> set w. \<forall>r \<in> set space_runes. r \<noteq> [] \<and> hd r \<noteq> c"
    "\<forall>c \<in> set t. \<forall>r \<in> set space_runes. r \<noteq> [] \<and> hd r \<noteq> c"
  shows "Fields (w @ CHR '' '' # t) = [w, t]"
proof -
  have "Fields (w @ CHR '' '' # t) = fields_from w (CHR '' '' # t)"
    using fields_from_plain[OF assms(3), of "[]"] by (simp add: Fields_def)
  also have "\<dots> = w # fields_from [] t"
    using assms(1) by (simp add: leading_space_blank)
  also have "fields_from [] t = fields_from t []"
    using fields_from_plain[OF assms(4), of "[]" "[]"] by simp
  finally show ?thesis using assms(2) by simp
qed

section \<open>Facts about the schedule parser\<close>


lemma parseTimeOfDay_Inr:
  assumes "parseTimeOfDay now t = Inr tod"
  shows "\<exists>h m. length t = 4 \<and> Atoi (take 2 t) = Some h \<and> Atoi (drop 2 t) = Some m
           \<and> 0 \<le> h \<and> h \<le> 23 \<and> 0 \<le> m \<and> m \<le> 59 \<and> tod = Date_on now h m"
  using assms by (auto simp: parseTimeOfDay_def split: option.splits if_splits)

lemma parseTimeOfDay_clock_Inl:
  "parseTimeOfDay n1 t = Inl e \<Longrightarrow> parseTimeOfDay n2 t = Inl e"
  by (auto simp: parseTimeOfDay_def split: option.splits if_splits)

lemma parseTimeOfDay_clock_Inr:
  assumes "parseTimeOfDay n1 t = Inr a"
  shows "\<exists>h m. 0 \<le> h \<and> h \<le> 23 \<and> 0 \<le> m \<and> m \<le> 59
           \<and> a = Date_on n1 h m \<and> parseTimeOfDay n2 t = Inr (Date_on n2 h m)"
proof -
  from parseTimeOfDay_Inr[OF assms] obtain h m where hm:
    "length t = 4" "Atoi (take 2 t) = Some h" "Atoi (drop 2 t) = Some m"
    "0 \<le> h" "h \<le> 23" "0 \<le> m" "m \<le> 59" "a = Date_on n1 h m"
    by blast
  then have "parseTimeOfDay n2 t = Inr (Date_on n2 h m)"
    by (simp add: parseTimeOfDay_def)
  with hm show ?thesis by blast
qed

text \<open>What \<open>ParseSchedule\<close> does once the interval parser has refused the text.\<close>

lemma ParseSchedule_weekday_branch:
  assumes "parseInterval (if HasPrefix (TrimSpace s) ''e '' then TrimPrefix (TrimSpace s) ''e ''
                          else TrimSpace s) = Inl x"
  shows "ParseSchedule k s =
        (if length (Fields (if HasPrefix (TrimSpace s) ''e '' then TrimPrefix (TrimSpace s) ''e ''
                          else TrimSpace s)) \<noteq> 2
         then Inl (InvalidFormat (if HasPrefix (TrimSpace s) ''e '' then TrimPrefix (TrimSpace s) ''e ''
                          else TrimSpace s))
         else (case parseWeekday (Fields (if HasPrefix (TrimSpace s) ''e '' then TrimPrefix (TrimSpace s) ''e ''
                          else TrimSpace s) ! 0) of
                 Inl e \<Rightarrow> Inl e
               | Inr weekday \<Rightarrow>
                  (case parseTimeOfDay k (Fields (if HasPrefix (TrimSpace s) ''e '' then TrimPrefix (TrimSpace s) ''e ''
                          else TrimSpace s) ! 1) of
                     Inl e \<Rightarrow> Inl e
                   | Inr timeOfDay \<Rightarrow>
                       Inr ((if HasPrefix (TrimSpace s) ''e ''
                             then empty_Schedule\<lparr>Type := Repeating\<rparr>
                             else empty_Schedule\<lparr>Type := SingleRun\<rparr>)
                            \<lparr>Weekday := weekday, TimeOfDay := timeOfDay\<rparr>))))"
  using assms by (simp add: ParseSchedule_def Let_def)

lemma ParseSchedule_interval_branch:
  assumes "parseInterval (if HasPrefix (TrimSpace s) ''e '' then TrimPrefix (TrimSpace s) ''e ''
                          else TrimSpace s) = Inr d"
  shows "ParseSchedule k s =
           Inr ((if HasPrefix (TrimSpace s) ''e '' then empty_Schedule\<lparr>Type := Repeating\<rparr>
                 else empty_Schedule\<lparr>Type := SingleRun\<rparr>)\<lparr>Interval := d, IsInterval := True\<rparr>)"
  using assms by (simp add: ParseSchedule_def Let_def)

lemma ParseSchedule_cases:
  assumes "ParseSchedule now s = Inr sch"
  defines "i \<equiv> TrimSpace s"
  defines "b \<equiv> (if HasPrefix i ''e '' then TrimPrefix i ''e '' else i)"
  shows "Type sch = (if HasPrefix i ''e '' then Repeating else SingleRun)"
    and "(IsInterval sch \<and> parseInterval b = Inr (Interval sch) \<and> Weekday sch = 0
          \<and> TimeOfDay sch = zero_Time)
       \<or> (\<not> IsInterval sch \<and> Interval sch = 0 \<and> (\<forall>d. parseInterval b \<noteq> Inr d)
          \<and> (\<exists>w t. Fields b = [w, t] \<and> parseWeekday w = Inr (Weekday sch)
                \<and> parseTimeOfDay now t = Inr (TimeOfDay sch)))"
proof -
  have both: "Type sch = (if HasPrefix i ''e '' then Repeating else SingleRun)
     \<and> ((IsInterval sch \<and> parseInterval b = Inr (Interval sch) \<and> Weekday sch = 0
          \<and> TimeOfDay sch = zero_Time)
       \<or> (\<not> IsInterval sch \<and> Interval sch = 0 \<and> (\<forall>d. parseInterval b \<noteq> Inr d)
          \<and> (\<exists>w t. Fields b = [w, t] \<and> parseWeekday w = Inr (Weekday sch)
                \<and> parseTimeOfDay now t = Inr (TimeOfDay sch))))"
  proof (cases "parseInterval b")
    case (Inr d)
    then show ?thesis
      using assms(1) ParseSchedule_interval_branch[of s d now] unfolding b_def i_def
      by (auto simp: empty_Schedule_def split: if_splits)
  next
    case (Inl e)
    note unf = ParseSchedule_weekday_branch[OF Inl[unfolded b_def i_def], of now, folded i_def, folded b_def]
    from unf assms(1) have len: "length (Fields b) = 2" by (auto split: if_splits)
    then obtain w t where wt: "Fields b = [w, t]"
      by (cases "Fields b"; cases "tl (Fields b)") auto
    from unf assms(1) wt Inl show ?thesis
      by (auto simp: empty_Schedule_def split: sum.splits if_splits)
  qed
  then show "Type sch = (if HasPrefix i ''e '' then Repeating else SingleRun)"
    and "(IsInterval sch \<and> parseInterval b = Inr (Interval sch) \<and> Weekday sch = 0
          \<and> TimeOfDay sch = zero_Time)
       \<or> (\<not> IsInterval sch \<and> Interval sch = 0 \<and> (\<forall>d. parseInterval b \<noteq> Inr d)
          \<and> (\<exists>w t. Fields b = [w, t] \<and> parseWeekday w = Inr (Weekday sch)
                \<and> parseTimeOfDay now t = Inr (TimeOfDay sch)))"
    by blast+
qed


lemma HasSuffix_append: "HasSuffix (x @ c) c" "TrimSuffix (x @ c) c = x"
  by (simp_all add: HasSuffix_def TrimSuffix_def)

lemma unit_letters:
  "(of_char (CHR ''s'') :: nat) = 115" "(of_char (CHR ''m'') :: nat) = 109"
  "(of_char (CHR ''h'') :: nat) = 104" "(of_char (CHR ''d'') :: nat) = 100"
  "(of_char (CHR ''w'') :: nat) = 119"
  by simp_all

lemma unit_pos:
  "0 < sint Second" "0 < sint Minute" "0 < sint Hour" "0 < sint (Hour * 24)"
  "0 < sint (Hour * 24 * 7)"
  unfolding unit_values using ns_pos by simp_all

lemma suffixes_mem:
  assumes "(c, u) \<in> set suffixes"
  shows "\<exists>ch. c = [ch] \<and> 32 < (of_char ch :: nat) \<and> (of_char ch :: nat) < 128 \<and> \<not> isDigit ch"
    and "0 < sint u"
proof -
  from assms consider "c = ''s'' \<and> u = Second" | "c = ''m'' \<and> u = Minute"
    | "c = ''h'' \<and> u = Hour" | "c = ''d'' \<and> u = Hour * 24" | "c = ''w'' \<and> u = Hour * 24 * 7"
    unfolding suffixes_def by fastforce
  then have "(\<exists>ch. c = [ch] \<and> 32 < (of_char ch :: nat) \<and> (of_char ch :: nat) < 128
                \<and> \<not> isDigit ch) \<and> 0 < sint u"
    using unit_pos by cases (auto simp: isDigit_def)
  then show "\<exists>ch. c = [ch] \<and> 32 < (of_char ch :: nat) \<and> (of_char ch :: nat) < 128 \<and> \<not> isDigit ch"
    and "0 < sint u"
    by blast+
qed

lemma isDigit_ascii:
  assumes "isDigit ch"
  shows "32 < (of_char ch :: nat)" "(of_char ch :: nat) < 128" "ch \<noteq> CHR ''e''"
  using assms by (auto simp: isDigit_def)

lemma parse_digits_unit:
  assumes "ds \<noteq> []" "list_all isDigit ds" "(c, u) \<in> set suffixes"
    "decimal ds * sint u < 2 ^ 63" "mark = [] \<or> mark = ''e ''"
  shows "ParseSchedule pnow (mark @ ds @ c) =
           Inr (empty_Schedule\<lparr>Type := (if mark = [] then SingleRun else Repeating),
                  Interval := word_of_int (decimal ds) * u, IsInterval := True\<rparr>)"
    and "sint (word_of_int (decimal ds) * u :: 64 word) = decimal ds * sint u"
proof -
  obtain ch where c: "c = [ch]" "32 < (of_char ch :: nat)" "(of_char ch :: nat) < 128"
    "\<not> isDigit ch"
    using suffixes_mem(1)[OF assms(3)] by blast
  have upos: "0 < sint u" by (rule suffixes_mem(2)[OF assms(3)])
  have dn: "0 \<le> decimal ds" by (rule decimal_nonneg[OF assms(2)])
  have "decimal ds * 1 \<le> decimal ds * sint u" using dn upos by (intro mult_left_mono) simp_all
  then have dlt: "decimal ds < 2 ^ 63" using assms(4) by simp
  have hd: "isDigit (hd ds)" using assms(1,2) by (cases ds) simp_all
  let ?s = "mark @ ds @ c"
  have hds: "32 < (of_char (hd ?s) :: nat) \<and> (of_char (hd ?s) :: nat) < 128"
    using assms(1,5) isDigit_ascii(1,2)[OF hd] by auto
  have trim: "TrimSpace ?s = ?s"
  proof (rule TrimSpace_id)
    show "?s \<noteq> []" using assms(1) by simp
    show "\<forall>w \<in> set space_runes. w \<noteq> [] \<and> hd w \<noteq> hd ?s"
      using hds by (intro ascii_not_space(1)) simp_all
    show "\<forall>w \<in> set (map rev space_runes). w \<noteq> [] \<and> hd w \<noteq> last ?s"
      using c by (intro ascii_not_space(2)) simp_all
  qed
  have pre: "HasPrefix ?s ''e '' \<longleftrightarrow> mark \<noteq> []"
  proof (cases "mark = []")
    case True
    then show ?thesis using hd assms(1) isDigit_ascii(3)[of "hd ds"]
      by (cases ds) (auto simp: HasPrefix_def)
  next
    case False
    then show ?thesis using assms(5) by (simp add: HasPrefix_def)
  qed
  have body: "(if HasPrefix ?s ''e '' then TrimPrefix ?s ''e '' else ?s) = ds @ c"
    using assms(5) pre by (auto simp: TrimPrefix_def HasPrefix_def)
  have at: "Atoi ds = Some (decimal ds)" by (rule Atoi_digits[OF assms(1,2) dlt])
  have pi: "parseInterval (ds @ c) = Inr (word_of_int (decimal ds) * u)"
    unfolding parseInterval_Inr_iff using assms(3) at HasSuffix_append[of ds c]
    by (intro exI[of _ c] exI[of _ u] exI[of _ "decimal ds"]) simp
  show "ParseSchedule pnow ?s =
           Inr (empty_Schedule\<lparr>Type := (if mark = [] then SingleRun else Repeating),
                  Interval := word_of_int (decimal ds) * u, IsInterval := True\<rparr>)"
    unfolding ParseSchedule_def trim Let_def body pi using pre
    by (simp add: empty_Schedule_def)
  have "0 \<le> decimal ds * sint u" using dn upos by simp
  then have "- (2 ^ 63) \<le> decimal ds * sint u" by (rule order_trans[rotated]) simp
  then show "sint (word_of_int (decimal ds) * u :: 64 word) = decimal ds * sint u"
    using assms(4) by (rule sint_mult_64)
qed

section \<open>Evaluation\<close>

text \<open>The equations that evaluate the functions above at a given text and instant.\<close>

lemmas string_eval = space_runes_def leading_space_def TrimSpace_def HasPrefix_def
  TrimPrefix_def HasSuffix_def TrimSuffix_def Fields_def lower_char_def isDigit_def
  digit_val_def decimal_def Atoi_def

lemmas parse_eval = suffixes_def parseInterval_def days_def parseWeekday_def
  parseTimeOfDay_def ParseSchedule_def empty_Schedule_def Second_def Minute_def Hour_def

lemmas time_eval = nsPerSecond_def nsPerMinute_def nsPerHour_def nsPerDay_def alpha_def
  omega_def lookup_def UTC_def civil_def civil_day_def Time_Hour_def Time_Minute_def
  Time_Second_def Time_Nanosecond_def Time_Weekday_def Date_def Date_on_def AddDate_days_def
  Time_Add_def Before_def zero_Time_def

lemmas next_run_eval = main_next_run_def CalculateNextRun_def align_weekday_hit
  align_weekday_step catch_up_hit catch_up_step

section \<open>A location that skips a day\<close>



section \<open>Two instants\<close>







section \<open>The next run of a weekday schedule\<close>




section \<open>The claims\<close>

text \<open>
  C2, as amended. For every interval text \<open>ds @ c\<close>, the decimal digits \<open>ds\<close> of a number
  \<open>n\<close> and a unit suffix \<open>c\<close> of the table with duration \<open>u\<close>, with or without the
  repeating marker before it, and every instant \<open>t0\<close> of every location: if \<open>n\<close> times the
  unit, in nanoseconds, is below \<open>2 ^ 63\<close>, then parsing the text and computing the next
  run at \<open>t0\<close> gives exactly \<open>t0\<close> plus \<open>n\<close> units, whatever the instant of the parse.
\<close>

theorem interval_next_run:
  assumes "ds \<noteq> []" "list_all isDigit ds" "(c, u) \<in> set suffixes"
    "decimal ds * sint u < 2 ^ 63" "mark = [] \<or> mark = ''e ''"
  shows "main_next_run pnow t0 (mark @ ds @ c)
           = Inr (Some (t0\<lparr>nanos := nanos t0 + decimal ds * sint u\<rparr>))"
proof -
  note parsed = parse_digits_unit(1)[OF assms, of pnow] parse_digits_unit(2)[OF assms]
  have "CalculateNextRun (empty_Schedule\<lparr>Type := (if mark = [] then SingleRun else Repeating),
            Interval := word_of_int (decimal ds) * u, IsInterval := True\<rparr>) t0
          = Some (t0\<lparr>nanos := nanos t0 + decimal ds * sint u\<rparr>)"
    using parsed(2) by (simp add: CalculateNextRun_def Time_Add_def)
  with parsed(1) show ?thesis by (simp add: main_next_run_def)
qed

theorem interval_next_run_witness:
  "''15'' \<noteq> [] \<and> list_all isDigit ''15'' \<and> (''m'', Minute) \<in> set suffixes
   \<and> decimal ''15'' * sint Minute < 2 ^ 63
   \<and> main_next_run \<lparr>nanos = 0, location = UTC\<rparr> \<lparr>nanos = 0, location = UTC\<rparr> ''e 15m''
       = Inr (Some \<lparr>nanos = 900 * nsPerSecond, location = UTC\<rparr>)"
proof -
  have a: "''15'' \<noteq> []" by simp
  have b: "list_all isDigit ''15''" by (simp add: isDigit_def)
  have c: "(''m'', Minute) \<in> set suffixes" by (simp add: suffixes_def)
  have d: "decimal ''15'' * sint Minute < 2 ^ 63"
    by (simp add: decimal_def digit_val_def Minute_def Second_def)
  have e: "''e '' = [] \<or> ''e '' = ''e ''" by simp
  have "decimal ''15'' * sint Minute = 900 * nsPerSecond"
    by (simp add: decimal_def digit_val_def Minute_def Second_def nsPerSecond_def)
  with interval_next_run[OF a b c d e, of "\<lparr>nanos = 0, location = UTC\<rparr>"
      "\<lparr>nanos = 0, location = UTC\<rparr>"] a b c d
  show ?thesis by simp
qed

text \<open>
  The claim as the specification states it fails where the product leaves 64 bits: the text
  \<open>9223372037s\<close> is parsed, and the next run at instant 0 is before instant 0.
\<close>

theorem interval_next_run_counterexample:
  "main_next_run \<lparr>nanos = 0, location = UTC\<rparr> \<lparr>nanos = 0, location = UTC\<rparr> ''9223372037s''
     = Inr (Some \<lparr>nanos = - 9223372036709551616, location = UTC\<rparr>)
   \<and> main_next_run \<lparr>nanos = 0, location = UTC\<rparr> \<lparr>nanos = 0, location = UTC\<rparr> ''9223372037s''
     \<noteq> Inr (Some \<lparr>nanos = 0 + 9223372037 * nsPerSecond, location = UTC\<rparr>)"
  by (simp add: next_run_eval string_eval parse_eval time_eval)








text \<open>
  C8, as amended. For every text that \<open>ParseSchedule\<close> accepts as an interval, the text
  after the marker ends in a unit suffix \<open>c\<close> of the table, what stands before the suffix
  is read by \<open>Atoi\<close> as an integer \<open>n\<close> of 64 bits, a sign allowed, and the interval is \<open>n\<close>
  times the unit in 64 bits with wrap-around. It is the exact product when that fits; then
  it is positive for a positive \<open>n\<close>, zero for \<open>n = 0\<close> and negative for a negative \<open>n\<close>.
\<close>

theorem parsed_interval_sign:
  assumes "ParseSchedule pnow s = Inr sch" and "IsInterval sch"
  shows "\<exists>c u n. (c, u) \<in> set suffixes \<and> 0 < sint u
           \<and> HasSuffix (if HasPrefix (TrimSpace s) ''e '' then TrimPrefix (TrimSpace s) ''e ''
                         else TrimSpace s) c
           \<and> Atoi (TrimSuffix (if HasPrefix (TrimSpace s) ''e ''
                                then TrimPrefix (TrimSpace s) ''e '' else TrimSpace s) c) = Some n
           \<and> - (2 ^ 63) \<le> n \<and> n < 2 ^ 63
           \<and> Interval sch = word_of_int n * u
           \<and> sint (Interval sch) = signed_take_bit 63 (n * sint u)
           \<and> (- (2 ^ 63) \<le> n * sint u \<and> n * sint u < 2 ^ 63
                \<longrightarrow> sint (Interval sch) = n * sint u)
           \<and> (0 < n \<and> n * sint u < 2 ^ 63 \<longrightarrow> 0 < sint (Interval sch))
           \<and> (n = 0 \<longrightarrow> Interval sch = 0)
           \<and> (n < 0 \<and> - (2 ^ 63) \<le> n * sint u \<longrightarrow> sint (Interval sch) < 0)"
proof -
  let ?b = "if HasPrefix (TrimSpace s) ''e '' then TrimPrefix (TrimSpace s) ''e ''
            else TrimSpace s"
  from ParseSchedule_cases(2)[OF assms(1)] assms(2)
  have "parseInterval ?b = Inr (Interval sch)" by auto
  then obtain c u n where p: "(c, u) \<in> set suffixes" "HasSuffix ?b c"
    "Atoi (TrimSuffix ?b c) = Some n" "Interval sch = word_of_int n * u"
    unfolding parseInterval_Inr_iff by blast
  have u: "0 < sint u" by (rule suffixes_mem(2)[OF p(1)])
  note r = Atoi_range[OF p(3)]
  have w: "sint (Interval sch) = signed_take_bit 63 (n * sint u)"
    unfolding p(4) by (rule sint_mult_wrap)
  have e: "- (2 ^ 63) \<le> n * sint u \<and> n * sint u < 2 ^ 63 \<longrightarrow> sint (Interval sch) = n * sint u"
    unfolding p(4) using sint_mult_64[of n u] by blast
  have pos: "0 < n \<and> n * sint u < 2 ^ 63 \<longrightarrow> 0 < sint (Interval sch)"
  proof
    assume a: "0 < n \<and> n * sint u < 2 ^ 63"
    then have "0 < n * sint u" using u by simp
    moreover from this have "- (2 ^ 63) \<le> n * sint u" by (rule order_trans[rotated, OF less_imp_le]) simp
    ultimately show "0 < sint (Interval sch)" using e a by simp
  qed
  have z: "n = 0 \<longrightarrow> Interval sch = 0" using p(4) by simp
  have neg: "n < 0 \<and> - (2 ^ 63) \<le> n * sint u \<longrightarrow> sint (Interval sch) < 0"
  proof
    assume a: "n < 0 \<and> - (2 ^ 63) \<le> n * sint u"
    then have l: "n * sint u < 0" using u by (simp add: mult_neg_pos)
    then have "n * sint u < 2 ^ 63" by (rule less_trans) simp
    then show "sint (Interval sch) < 0" using e a l by simp
  qed
  from p(1,2,3,4) u r w e pos z neg show ?thesis by blast
qed

theorem parsed_interval_sign_witness:
  "ParseSchedule \<lparr>nanos = 0, location = UTC\<rparr> ''15m''
     = Inr \<lparr>Type = SingleRun, Interval = 15 * Minute, Weekday = 0, TimeOfDay = zero_Time,
          IsInterval = True\<rparr>
   \<and> (\<exists>c u n. (c, u) \<in> set suffixes
        \<and> Atoi (TrimSuffix (if HasPrefix (TrimSpace ''15m'') ''e ''
                   then TrimPrefix (TrimSpace ''15m'') ''e '' else TrimSpace ''15m'') c) = Some n
        \<and> 15 * Minute = word_of_int n * u)
   \<and> 0 < sint (15 * Minute)"
proof -
  let ?sch = "\<lparr>Type = SingleRun, Interval = 15 * Minute, Weekday = 0, TimeOfDay = zero_Time,
          IsInterval = True\<rparr>"
  have p: "ParseSchedule \<lparr>nanos = 0, location = UTC\<rparr> ''15m'' = Inr ?sch"
    by (simp add: string_eval parse_eval)
  have i: "IsInterval ?sch" by simp
  have m: "0 < sint (15 * Minute)" by (simp add: Minute_def Second_def)
  from parsed_interval_sign[OF p i] obtain c u n where
    "(c, u) \<in> set suffixes"
    "Atoi (TrimSuffix (if HasPrefix (TrimSpace ''15m'') ''e ''
                   then TrimPrefix (TrimSpace ''15m'') ''e '' else TrimSpace ''15m'') c) = Some n"
    "Interval ?sch = word_of_int n * u"
    by blast
  then have "\<exists>c u n. (c, u) \<in> set suffixes
        \<and> Atoi (TrimSuffix (if HasPrefix (TrimSpace ''15m'') ''e ''
                   then TrimPrefix (TrimSpace ''15m'') ''e '' else TrimSpace ''15m'') c) = Some n
        \<and> 15 * Minute = word_of_int n * u"
    by (intro exI[of _ c] exI[of _ u] exI[of _ n]) simp
  with p m show ?thesis by blast
qed

text \<open>
  The claim as stated fails: \<open>0s\<close> is accepted with the interval zero, and \<open>-5m\<close> with an
  interval of minus five minutes.
\<close>

theorem parsed_interval_sign_counterexample:
  "ParseSchedule \<lparr>nanos = 0, location = UTC\<rparr> ''0s''
     = Inr \<lparr>Type = SingleRun, Interval = 0, Weekday = 0, TimeOfDay = zero_Time,
          IsInterval = True\<rparr>
   \<and> \<not> 0 < sint (0 :: Duration)
   \<and> ParseSchedule \<lparr>nanos = 0, location = UTC\<rparr> ''-5m''
     = Inr \<lparr>Type = SingleRun, Interval = - 5 * Minute, Weekday = 0, TimeOfDay = zero_Time,
          IsInterval = True\<rparr>
   \<and> sint (- 5 * Minute) = - 300 * nsPerSecond"
  by (simp add: string_eval parse_eval nsPerSecond_def)

end
